theory Spec2Isabelle
  imports Main
begin

section \<open>The session holder of glQiwiApi/core/session/holder.py\<close>

text \<open>
  The module holds one dataclass, \<^verbatim>\<open>Response\<close>, an abstract holder
  \<^verbatim>\<open>AbstractSessionHolder\<close> (constructor, \<^verbatim>\<open>update_session_kwargs\<close>,
  \<^verbatim>\<open>__aenter__\<close>, \<^verbatim>\<open>__aexit__\<close>) and its aiohttp backend
  \<^verbatim>\<open>AiohttpSessionHolder\<close> (\<^verbatim>\<open>close\<close>, \<^verbatim>\<open>parse_response\<close>,
  \<^verbatim>\<open>get_session\<close>, \<^verbatim>\<open>_session_in_working_order\<close>,
  \<^verbatim>\<open>_instantiate_new_session\<close>).

  Session objects are shared: the holder keeps a reference, every caller of
  \<^verbatim>\<open>get_session\<close> receives the same reference, and anybody holding it may close the
  session. The model therefore keeps the session objects in a store and the holder keeps an
  address into it. All coroutines run to completion one after the other (one task per
  holder), so \<^verbatim>\<open>await\<close> is plain sequencing.
\<close>

subsection \<open>Values\<close>

text \<open>An Isabelle \<^typ>\<open>char\<close> is one byte, so Python's \<^verbatim>\<open>bytes\<close> is a list of them.\<close>

type_synonym bytes = "char list"

text \<open>Keyword arguments: a dict from names to values of any type.\<close>

type_synonym 'v kwargs = "string \<rightharpoonup> 'v"

text \<open>A raised exception, named by its class.\<close>

datatype error = AttributeError | TypeError | Raised string

text \<open>The dataclass \<^verbatim>\<open>Response\<close>, lines 15 to 20.\<close>

record response =
  status_code :: int
  body :: bytes
  headers :: "(string \<times> string) list"
  content_type :: string

subsection \<open>The transport library\<close>

text \<open>
  Modelled from the spec: \<^verbatim>\<open>aiohttp.ClientSession\<close> and
  \<^verbatim>\<open>aiohttp.ClientResponse\<close> belong to the transport library, which the
  repository imports and does not contain. A session is an object with a closed-flag; it is
  open when constructed, its \<^verbatim>\<open>close()\<close> makes it report closed, and it keeps for
  itself the keyword arguments it was constructed from (\<^verbatim>\<open>**\<close> unpacks the dict into
  a new one, so the session does not share the holder's dict). A raw response carries a
  status, a payload that arrives in chunks and that \<^verbatim>\<open>read()\<close> buffers completely,
  headers and a content type.
\<close>

record 'v client_session =
  closed :: bool
  init_kwargs :: "'v kwargs"

record client_response =
  status :: int
  stream :: "bytes list"
  raw_headers :: "(string \<times> string) list"
  raw_content_type :: string

definition read :: "client_response \<Rightarrow> bytes" where
  "read r = concat (stream r)"

text \<open>
  The constructor \<^verbatim>\<open>aiohttp.ClientSession(**kwargs)\<close> may reject its arguments (an
  unknown keyword is a \<^verbatim>\<open>TypeError\<close>). Which arguments it rejects is a parameter of
  the model: \<open>ctor kw = Some e\<close> when it raises \<open>e\<close>, \<open>None\<close> when it constructs a session.
\<close>

type_synonym 'v ctor = "'v kwargs \<Rightarrow> error option"

subsection \<open>The holder and the store\<close>

type_synonym addr = nat

text \<open>
  \<open>session\<close> and \<open>session_kwargs\<close> are the attributes \<^verbatim>\<open>_session\<close> and
  \<^verbatim>\<open>_session_kwargs\<close> of the holder (an Isabelle name cannot start with an
  underscore). \<open>heap\<close> is the store of session objects, the address of an object being its
  index; allocation appends. \<open>close_calls\<close> is a ghost counter of the invocations of the
  holder's \<^verbatim>\<open>close\<close>: no operation reads it.
\<close>

record 'v state =
  session :: "addr option"
  session_kwargs :: "'v kwargs"
  heap :: "'v client_session list"
  close_calls :: nat

text \<open>A reference held by the holder points to an object of the store.\<close>

definition valid_ref :: "'v state \<Rightarrow> bool" where
  "valid_ref st = (case session st of None \<Rightarrow> True | Some a \<Rightarrow> a < length (heap st))"

text \<open>\<^verbatim>\<open>AbstractSessionHolder.__init__\<close>, lines 31 to 33, in a store \<open>h\<close>.\<close>

definition init :: "'v kwargs \<Rightarrow> 'v client_session list \<Rightarrow> 'v state" where
  "init kw h = \<lparr>session = None, session_kwargs = kw, heap = h, close_calls = 0\<rparr>"

text \<open>\<^verbatim>\<open>ClientSession.close()\<close> on the object at address \<open>a\<close>, by whoever holds it.\<close>

definition client_session_close :: "addr \<Rightarrow> 'v state \<Rightarrow> 'v state" where
  "client_session_close a st = st\<lparr>heap := (heap st)[a := (heap st ! a)\<lparr>closed := True\<rparr>]\<rparr>"

text \<open>\<^verbatim>\<open>update_session_kwargs\<close>, lines 47 and 48: \<^verbatim>\<open>dict.update\<close>.\<close>

definition update_session_kwargs :: "'v kwargs \<Rightarrow> 'v state \<Rightarrow> 'v state" where
  "update_session_kwargs kw st = st\<lparr>session_kwargs := session_kwargs st ++ kw\<rparr>"

text \<open>
  \<^verbatim>\<open>_session_in_working_order\<close>, lines 84 and 85. \<^verbatim>\<open>and\<close> evaluates
  \<^verbatim>\<open>self._session.closed\<close> only when the reference is not \<^verbatim>\<open>None\<close>.
\<close>

definition session_in_working_order :: "'v state \<Rightarrow> bool" where
  "session_in_working_order st =
     (case session st of None \<Rightarrow> False | Some a \<Rightarrow> closed (heap st ! a) = False)"

text \<open>
  \<^verbatim>\<open>_instantiate_new_session\<close>, lines 87 to 91. The constructor runs before the
  assignment, so when it raises the holder is as it was. The method returns
  \<^verbatim>\<open>self._session\<close>, a reference that Python types as optional.
\<close>

definition instantiate_new_session :: "'v ctor \<Rightarrow> 'v state \<Rightarrow> (error + addr option) \<times> 'v state" where
  "instantiate_new_session ctor st =
     (case ctor (session_kwargs st) of
        Some e \<Rightarrow> (Inl e, st)
      | None \<Rightarrow>
          (let st' = st\<lparr>heap := heap st @ [\<lparr>closed = False, init_kwargs = session_kwargs st\<rparr>],
                        session := Some (length (heap st))\<rparr>
           in (Inr (session st'), st')))"

text \<open>\<^verbatim>\<open>get_session\<close>, lines 79 to 82.\<close>

definition get_session :: "'v ctor \<Rightarrow> 'v state \<Rightarrow> (error + addr option) \<times> 'v state" where
  "get_session ctor st =
     (if session_in_working_order st then (Inr (session st), st)
      else instantiate_new_session ctor st)"

text \<open>
  \<^verbatim>\<open>close\<close>, lines 67 to 69. \<^verbatim>\<open>self._session.close()\<close> on the reference
  \<^verbatim>\<open>None\<close> would be an \<^verbatim>\<open>AttributeError\<close>.
\<close>

definition close :: "'v state \<Rightarrow> (error + unit) \<times> 'v state" where
  "close st =
     (let st1 = st\<lparr>close_calls := Suc (close_calls st)\<rparr>
      in if session_in_working_order st1
         then (case session st1 of
                 None \<Rightarrow> (Inl AttributeError, st1)
               | Some a \<Rightarrow> (Inr (), client_session_close a st1))
         else (Inr (), st1))"

text \<open>\<^verbatim>\<open>parse_response\<close>, lines 71 to 77. It does not touch the holder.\<close>

definition parse_response :: "'v state \<Rightarrow> client_response \<Rightarrow> (error + response) \<times> 'v state" where
  "parse_response st r =
     (Inr \<lparr>status_code = status r, body = read r, headers = raw_headers r,
           content_type = raw_content_type r\<rparr>, st)"

text \<open>\<^verbatim>\<open>__aenter__\<close>, lines 50 to 52.\<close>

definition aenter :: "'v ctor \<Rightarrow> 'v state \<Rightarrow> (error + addr option) \<times> 'v state" where
  "aenter ctor st =
     (case get_session ctor st of
        (Inl e, st1) \<Rightarrow> (Inl e, st1)
      | (Inr s, st1) \<Rightarrow> (let st2 = st1\<lparr>session := s\<rparr> in (Inr (session st2), st2)))"

text \<open>
  \<^verbatim>\<open>__aexit__\<close>, lines 54 to 60. The three arguments describe the exception of the
  block, if any; the method ignores them and returns \<^verbatim>\<open>None\<close>.
\<close>

definition aexit :: "error option \<Rightarrow> 'v state \<Rightarrow> (error + unit) \<times> 'v state" where
  "aexit exc st = close st"

text \<open>
  \<^verbatim>\<open>async with holder as s: block\<close>, as Python runs it: \<^verbatim>\<open>__aenter__\<close> first; if
  it raises, neither the block nor \<^verbatim>\<open>__aexit__\<close> runs. Otherwise the block runs on
  what \<^verbatim>\<open>__aenter__\<close> returned, then \<^verbatim>\<open>__aexit__\<close> runs, with the block's
  exception if it raised one. \<^verbatim>\<open>__aexit__\<close> returns \<^verbatim>\<open>None\<close>, which is not true,
  so the block's exception is raised again; an exception of \<^verbatim>\<open>__aexit__\<close> itself
  replaces it. The block is any function of the session it is given and of the state.
\<close>

definition async_with ::
  "'v ctor \<Rightarrow> 'v state \<Rightarrow> (addr option \<Rightarrow> 'v state \<Rightarrow> (error + 'a) \<times> 'v state)
     \<Rightarrow> (error + 'a) \<times> 'v state" where
  "async_with ctor st block =
     (case aenter ctor st of
        (Inl e, st1) \<Rightarrow> (Inl e, st1)
      | (Inr s, st1) \<Rightarrow>
          (case block s st1 of
             (r, st2) \<Rightarrow>
               (case aexit (case r of Inl e \<Rightarrow> Some e | Inr _ \<Rightarrow> None) st2 of
                  (Inl e', st3) \<Rightarrow> (Inl e', st3)
                | (Inr _, st3) \<Rightarrow> (r, st3))))"

subsection \<open>Sequences of calls\<close>

text \<open>
  What a caller can do with a holder and with the sessions it hands out: the four public
  methods, and \<^verbatim>\<open>close()\<close> on a session object directly (the closure by an external
  actor).
\<close>

datatype 'v op =
  GetSession
  | Close
  | UpdateSessionKwargs "'v kwargs"
  | ParseResponse client_response
  | SessionClose addr

datatype ret = RSession "addr option" | RNone | RResponse response

fun call :: "'v ctor \<Rightarrow> 'v op \<Rightarrow> 'v state \<Rightarrow> (error + ret) \<times> 'v state" where
  "call ctor GetSession st = (case get_session ctor st of (r, st') \<Rightarrow> (map_sum id RSession r, st'))"
| "call ctor Close st = (case close st of (r, st') \<Rightarrow> (map_sum id (\<lambda>_. RNone) r, st'))"
| "call ctor (UpdateSessionKwargs kw) st = (Inr RNone, update_session_kwargs kw st)"
| "call ctor (ParseResponse x) st = (case parse_response st x of (r, st') \<Rightarrow> (map_sum id RResponse r, st'))"
| "call ctor (SessionClose a) st = (Inr RNone, client_session_close a st)"

text \<open>The calls one after the other; a caller that catches an exception goes on.\<close>

fun run :: "'v ctor \<Rightarrow> 'v op list \<Rightarrow> 'v state \<Rightarrow> (error + ret) list \<times> 'v state" where
  "run ctor [] st = ([], st)"
| "run ctor (x # xs) st =
     (case call ctor x st of
        (r, st1) \<Rightarrow> (case run ctor xs st1 of (rs, st2) \<Rightarrow> (r # rs, st2)))"

subsection \<open>A transport whose close may raise\<close>

text \<open>
  Modelled from the spec: the transport's \<^verbatim>\<open>close()\<close> can fail (a network error
  while closing), and the holder's \<^verbatim>\<open>close\<close> awaits it with no handler, so the
  exception reaches the caller. What the transport does is a parameter: \<open>tc s = None\<close>
  when closing the session object \<open>s\<close> succeeds, which makes it report closed, and
  \<open>tc s = Some (e, c)\<close> when it raises \<open>e\<close> and leaves the closed-flag at \<open>c\<close>.
  \<open>close_via tc\<close> is \<^verbatim>\<open>close\<close>, lines 67 to 69, over such a transport; \<open>close\<close>
  above is the case of a transport that always succeeds. \<open>close_times tc n\<close> is \<open>n\<close>
  calls in a row, the caller catching what is raised.
\<close>

type_synonym 'v transport_close = "'v client_session \<Rightarrow> (error \<times> bool) option"

definition close_via :: "'v transport_close \<Rightarrow> 'v state \<Rightarrow> (error + unit) \<times> 'v state" where
  "close_via tc st =
     (let st1 = st\<lparr>close_calls := Suc (close_calls st)\<rparr>
      in if session_in_working_order st1
         then (case session st1 of
                 None \<Rightarrow> (Inl AttributeError, st1)
               | Some a \<Rightarrow>
                   (case tc (heap st1 ! a) of
                      None \<Rightarrow> (Inr (), client_session_close a st1)
                    | Some (e, c) \<Rightarrow>
                        (Inl e, st1\<lparr>heap := (heap st1)[a := (heap st1 ! a)\<lparr>closed := c\<rparr>]\<rparr>)))
         else (Inr (), st1))"

fun close_times ::
  "'v transport_close \<Rightarrow> nat \<Rightarrow> 'v state \<Rightarrow> (error + unit) list \<times> 'v state" where
  "close_times tc 0 st = ([], st)"
| "close_times tc (Suc n) st =
     (case close_via tc st of
        (r, st1) \<Rightarrow> (case close_times tc n st1 of (rs, st2) \<Rightarrow> (r # rs, st2)))"

subsection \<open>Concrete holders\<close>

text \<open>
  A constructor that rejects the keyword \<^verbatim>\<open>bogus\<close> and accepts everything else, a
  holder fresh from \<^verbatim>\<open>__init__\<close>, the same holder after its first
  \<^verbatim>\<open>get_session\<close>, and after a \<^verbatim>\<open>close\<close> that followed.
\<close>

definition strict_ctor :: "nat ctor" where
  "strict_ctor kw = (if kw ''bogus'' = None then None else Some TypeError)"

definition ex_unallocated :: "nat state" where
  "ex_unallocated = init Map.empty []"

definition ex_active :: "nat state" where
  "ex_active = \<lparr>session = Some 0, session_kwargs = Map.empty,
                 heap = [\<lparr>closed = False, init_kwargs = Map.empty\<rparr>], close_calls = 0\<rparr>"

definition ex_closed :: "nat state" where
  "ex_closed = \<lparr>session = Some 0, session_kwargs = Map.empty,
                 heap = [\<lparr>closed = True, init_kwargs = Map.empty\<rparr>], close_calls = 1\<rparr>"

definition ex_raw :: client_response where
  "ex_raw = \<lparr>status = 200, stream = [''o'', ''k''], raw_headers = [(''X-Test'', ''1'')],
             raw_content_type = ''text/plain''\<rparr>"

definition ex_calls :: "nat op list" where
  "ex_calls = [GetSession, UpdateSessionKwargs [''bogus'' \<mapsto> 1], GetSession,
               ParseResponse ex_raw, GetSession]"

text \<open>
  A holder whose configuration the constructor rejects, and a block that changes the
  configuration and then raises.
\<close>

definition ex_misconfigured :: "nat state" where
  "ex_misconfigured = init [''bogus'' \<mapsto> 1] []"

definition ex_failing_block :: "addr option \<Rightarrow> nat state \<Rightarrow> (error + unit) \<times> nat state" where
  "ex_failing_block s st = (Inl (Raised ''boom''), update_session_kwargs [''timeout'' \<mapsto> 5] st)"

text \<open>Calls that a client may make before it ever asks for a session.\<close>

definition ex_idle_calls :: "nat op list" where
  "ex_idle_calls = [Close, UpdateSessionKwargs [''timeout'' \<mapsto> 5], ParseResponse ex_raw]"

text \<open>A transport whose close always succeeds, and one whose close always raises and
  leaves the session open.\<close>

definition close_succeeds :: "nat transport_close" where
  "close_succeeds s = None"

definition close_fails :: "nat transport_close" where
  "close_fails s = Some (Raised ''CloseError'', False)"

section \<open>Properties\<close>

subsection \<open>Each method on its own\<close>

lemmas ex_defs = strict_ctor_def ex_unallocated_def ex_active_def ex_closed_def ex_raw_def
  ex_calls_def init_def

lemmas holder_defs = get_session_def instantiate_new_session_def session_in_working_order_def
  close_def client_session_close_def update_session_kwargs_def parse_response_def aenter_def
  aexit_def valid_ref_def read_def

lemma close_never_raises: "fst (close st) = Inr ()"
  by (simp add: close_def session_in_working_order_def Let_def split: option.splits)

lemma close_not_working:
  "\<not> session_in_working_order st \<Longrightarrow> close st = (Inr (), st\<lparr>close_calls := Suc (close_calls st)\<rparr>)"
  by (simp add: close_def session_in_working_order_def Let_def split: option.splits)

lemma close_working:
  "session_in_working_order st \<Longrightarrow> session st = Some a \<Longrightarrow>
   close st = (Inr (), client_session_close a (st\<lparr>close_calls := Suc (close_calls st)\<rparr>))"
  by (simp add: close_def session_in_working_order_def Let_def split: option.splits)

lemma close_session: "session (snd (close st)) = session st"
  by (simp add: close_def session_in_working_order_def client_session_close_def Let_def split: option.splits)

lemma close_calls_close: "close_calls (snd (close st)) = Suc (close_calls st)"
  by (simp add: close_def session_in_working_order_def client_session_close_def Let_def split: option.splits)

lemma close_valid_ref: "valid_ref st \<Longrightarrow> valid_ref (snd (close st))"
  by (simp add: close_def session_in_working_order_def client_session_close_def valid_ref_def Let_def split: option.splits)

lemma close_ends_not_working: "valid_ref st \<Longrightarrow> \<not> session_in_working_order (snd (close st))"
  by (simp add: close_def session_in_working_order_def client_session_close_def valid_ref_def Let_def split: option.splits)

lemma get_session_session: "get_session ctor st = (Inr s, st1) \<Longrightarrow> session st1 = s"
  by (auto simp: get_session_def instantiate_new_session_def Let_def split: if_splits option.splits)

lemma get_session_working_after:
  "get_session ctor st = (Inr s, st1) \<Longrightarrow> session_in_working_order st1"
  by (auto simp: get_session_def instantiate_new_session_def session_in_working_order_def Let_def split: if_splits option.splits)

lemma get_session_raises: "get_session ctor st = (Inl e, st1) \<Longrightarrow> st1 = st \<and> \<not> session_in_working_order st \<and> ctor (session_kwargs st) = Some e"
  by (auto simp: get_session_def instantiate_new_session_def Let_def split: if_splits option.splits)

lemma aenter_eq: "aenter ctor st = get_session ctor st"
proof (cases "get_session ctor st")
  case (Pair r st1)
  show ?thesis
  proof (cases r)
    case (Inl e)
    with Pair show ?thesis by (simp add: aenter_def)
  next
    case (Inr s)
    with Pair have "session st1 = s" by (simp add: get_session_session)
    with Pair Inr show ?thesis by (simp add: aenter_def)
  qed
qed


subsection \<open>Sequences of calls that leave the session alone\<close>

lemma get_session_working:
  "session_in_working_order st \<Longrightarrow> get_session ctor st = (Inr (session st), st)"
  by (simp add: get_session_def)

lemma call_quiet:
  assumes "session st = Some a" "\<not> closed (heap st ! a)" "x \<noteq> Close" "x \<noteq> SessionClose a"
  shows "session (snd (call ctor x st)) = Some a \<and> \<not> closed (heap (snd (call ctor x st)) ! a)
         \<and> (x = GetSession \<longrightarrow> fst (call ctor x st) = Inr (RSession (Some a)))"
proof (cases x)
  case GetSession
  from assms have "session_in_working_order st" by (simp add: session_in_working_order_def)
  then have "get_session ctor st = (Inr (session st), st)" by (rule get_session_working)
  with assms GetSession show ?thesis by simp
next
  case Close
  with assms show ?thesis by simp
next
  case (UpdateSessionKwargs kw)
  with assms show ?thesis by (simp add: update_session_kwargs_def)
next
  case (ParseResponse r)
  with assms show ?thesis by (simp add: parse_response_def)
next
  case (SessionClose b)
  with assms have "b \<noteq> a" by simp
  with assms SessionClose show ?thesis by (simp add: client_session_close_def)
qed

lemma run_Cons:
  "run ctor (x # xs) st =
     (fst (call ctor x st) # fst (run ctor xs (snd (call ctor x st))),
      snd (run ctor xs (snd (call ctor x st))))"
  by (simp split: prod.splits)

lemma run_length: "length (fst (run ctor ops st)) = length ops"
  by (induction ops arbitrary: st) (simp_all only: run.simps(1) run_Cons fst_conv list.size)

lemma run_quiet:
  assumes "session st = Some a" "\<not> closed (heap st ! a)"
      and "\<forall>x \<in> set ops. x \<noteq> Close \<and> x \<noteq> SessionClose a"
  shows "(\<forall>i < length ops. ops ! i = GetSession \<longrightarrow> fst (run ctor ops st) ! i = Inr (RSession (Some a)))
         \<and> session (snd (run ctor ops st)) = Some a
         \<and> \<not> closed (heap (snd (run ctor ops st)) ! a)"
  using assms
proof (induction ops arbitrary: st)
  case Nil
  then show ?case by simp
next
  case (Cons x xs)
  define r where "r = fst (call ctor x st)"
  define st1 where "st1 = snd (call ctor x st)"
  from Cons.prems have q: "x \<noteq> Close" "x \<noteq> SessionClose a" by simp_all
  from call_quiet [OF Cons.prems(1) Cons.prems(2) q, of ctor]
  have s1: "session st1 = Some a" "\<not> closed (heap st1 ! a)"
    and r: "x = GetSession \<longrightarrow> r = Inr (RSession (Some a))"
    unfolding r_def st1_def by blast+
  from Cons.prems have "\<forall>x \<in> set xs. x \<noteq> Close \<and> x \<noteq> SessionClose a" by simp
  from Cons.IH [OF s1 this]
  have ih: "\<forall>i < length xs. xs ! i = GetSession \<longrightarrow> fst (run ctor xs st1) ! i = Inr (RSession (Some a))"
    "session (snd (run ctor xs st1)) = Some a" "\<not> closed (heap (snd (run ctor xs st1)) ! a)"
    by blast+
  have rc: "run ctor (x # xs) st = (r # fst (run ctor xs st1), snd (run ctor xs st1))"
    unfolding r_def st1_def by (rule run_Cons)
  have "\<forall>i < length (x # xs). (x # xs) ! i = GetSession \<longrightarrow>
          fst (run ctor (x # xs) st) ! i = Inr (RSession (Some a))"
  proof (intro allI impI)
    fix i assume "i < length (x # xs)" "(x # xs) ! i = GetSession"
    then show "fst (run ctor (x # xs) st) ! i = Inr (RSession (Some a))"
      using r ih(1) unfolding rc by (cases i) simp_all
  qed
  then show ?case using ih(2,3) unfolding rc by simp
qed

lemma run_replicate_GetSession:
  "session_in_working_order st \<Longrightarrow>
   run ctor (replicate n GetSession) st = (replicate n (Inr (RSession (session st))), st)"
  by (induction n) (simp_all add: get_session_working)

subsection \<open>Reuse of the session\<close>

text \<open>
  C1. Once a call of \<^verbatim>\<open>get_session\<close> has returned a session, every later call
  returns that same object, as long as nobody calls the holder's \<^verbatim>\<open>close\<close> or
  closes that session directly: in any sequence of other calls (which may change the
  configuration, parse responses or close other sessions) every \<^verbatim>\<open>get_session\<close>
  gives the session of the first call, the holder keeps referring to it, and \<open>n\<close> calls
  in a row return it \<open>n\<close> times and change nothing.
\<close>

theorem get_session_reuse:
  "get_session ctor st = (Inr s, st1) \<and>
   (\<forall>x \<in> set ops. x \<noteq> Close \<and> (\<forall>a. s = Some a \<longrightarrow> x \<noteq> SessionClose a)) \<longrightarrow>
   s \<noteq> None \<and> session st1 = s \<and>
   (\<forall>i < length ops. ops ! i = GetSession \<longrightarrow> fst (run ctor ops st1) ! i = Inr (RSession s)) \<and>
   session (snd (run ctor ops st1)) = s \<and>
   run ctor (replicate n GetSession) st1 = (replicate n (Inr (RSession s)), st1)"
proof (intro impI, elim conjE)
  assume first: "get_session ctor st = (Inr s, st1)"
    and quiet: "\<forall>x \<in> set ops. x \<noteq> Close \<and> (\<forall>a. s = Some a \<longrightarrow> x \<noteq> SessionClose a)"
  from first have s: "session st1 = s" by (rule get_session_session)
  from first have w: "session_in_working_order st1" by (rule get_session_working_after)
  with s obtain a where a: "s = Some a" "\<not> closed (heap st1 ! a)"
    by (auto simp: session_in_working_order_def split: option.splits)
  from quiet a have q: "\<forall>x \<in> set ops. x \<noteq> Close \<and> x \<noteq> SessionClose a" by simp
  from s a have sa: "session st1 = Some a" by simp
  note rq = run_quiet [OF sa a(2) q, of ctor]
  from run_replicate_GetSession [OF w, of ctor n] s
  have "run ctor (replicate n GetSession) st1 = (replicate n (Inr (RSession s)), st1)" by simp
  with rq a s show "s \<noteq> None \<and> session st1 = s \<and>
   (\<forall>i < length ops. ops ! i = GetSession \<longrightarrow> fst (run ctor ops st1) ! i = Inr (RSession s)) \<and>
   session (snd (run ctor ops st1)) = s \<and>
   run ctor (replicate n GetSession) st1 = (replicate n (Inr (RSession s)), st1)"
    by simp
qed


theorem get_session_reuse_witness:
  "get_session strict_ctor ex_unallocated = (Inr (Some 0), ex_active)
   \<and> Close \<notin> set ex_calls \<and> SessionClose 0 \<notin> set ex_calls
   \<and> fst (run strict_ctor ex_calls ex_active) ! 0 = Inr (RSession (Some 0))
   \<and> fst (run strict_ctor ex_calls ex_active) ! 2 = Inr (RSession (Some 0))
   \<and> fst (run strict_ctor ex_calls ex_active) ! 4 = Inr (RSession (Some 0))
   \<and> session (snd (run strict_ctor ex_calls ex_active)) = Some 0
   \<and> run strict_ctor (replicate 3 GetSession) ex_active
       = (replicate 3 (Inr (RSession (Some 0))), ex_active)"
proof -
  have first: "get_session strict_ctor ex_unallocated = (Inr (Some 0), ex_active)"
    by (simp add: ex_defs holder_defs)
  have quiet: "\<forall>x \<in> set ex_calls. x \<noteq> Close \<and> (\<forall>a. Some (0::nat) = Some a \<longrightarrow> x \<noteq> SessionClose a)"
    by (simp add: ex_calls_def)
  have i: "(0::nat) < length ex_calls" "ex_calls ! 0 = GetSession"
    "(2::nat) < length ex_calls" "ex_calls ! 2 = GetSession"
    "(4::nat) < length ex_calls" "ex_calls ! 4 = GetSession"
    by (simp_all add: ex_calls_def)
  from get_session_reuse [of strict_ctor ex_unallocated "Some 0" ex_active ex_calls 3] first quiet
  have "(\<forall>i < length ex_calls. ex_calls ! i = GetSession \<longrightarrow>
            fst (run strict_ctor ex_calls ex_active) ! i = Inr (RSession (Some 0)))
        \<and> session (snd (run strict_ctor ex_calls ex_active)) = Some 0
        \<and> run strict_ctor (replicate 3 GetSession) ex_active
            = (replicate 3 (Inr (RSession (Some 0))), ex_active)"
    by blast
  with i first quiet show ?thesis by (simp add: ex_calls_def)
qed

subsection \<open>Closing again and again\<close>

lemma call_Close: "call ctor Close st = (Inr RNone, snd (close st))"
  using close_never_raises [of st] by (cases "close st") simp

lemma working_order_close_calls:
  "session_in_working_order (st\<lparr>close_calls := k\<rparr>) = session_in_working_order st"
  by (simp add: session_in_working_order_def split: option.splits)

lemma close_via_succeeding: "close_via (\<lambda>s. None) st = close st"
  by (simp add: close_via_def close_def Let_def split: option.splits)

lemma close_via_not_working:
  "\<not> session_in_working_order st \<Longrightarrow>
   close_via tc st = (Inr (), st\<lparr>close_calls := Suc (close_calls st)\<rparr>)"
  by (simp add: close_via_def Let_def working_order_close_calls)

lemma close_via_open:
  "session st = Some a \<Longrightarrow> \<not> closed (heap st ! a) \<Longrightarrow>
   close_via tc st =
     (case tc (heap st ! a) of
        None \<Rightarrow> (Inr (), client_session_close a (st\<lparr>close_calls := Suc (close_calls st)\<rparr>))
      | Some (e, c) \<Rightarrow>
          (Inl e, st\<lparr>close_calls := Suc (close_calls st),
                      heap := (heap st)[a := (heap st ! a)\<lparr>closed := c\<rparr>]\<rparr>))"
  by (simp add: close_via_def session_in_working_order_def Let_def split: option.splits)

lemma close_via_raises:
  "fst (close_via tc st) = Inl e \<Longrightarrow>
   \<exists>a c. session st = Some a \<and> \<not> closed (heap st ! a) \<and> tc (heap st ! a) = Some (e, c)"
  by (auto simp: close_via_def session_in_working_order_def Let_def
      split: option.splits if_splits prod.splits)

lemma close_times_Suc:
  "close_times tc (Suc n) st =
     (fst (close_via tc st) # fst (close_times tc n (snd (close_via tc st))),
      snd (close_times tc n (snd (close_via tc st))))"
  by (simp split: prod.splits)

lemma close_times_idle:
  "\<not> session_in_working_order st \<Longrightarrow>
   close_times tc n st = (replicate n (Inr ()), st\<lparr>close_calls := close_calls st + n\<rparr>)"
proof (induction n arbitrary: st)
  case 0
  show ?case by simp
next
  case (Suc n)
  let ?st1 = "st\<lparr>close_calls := Suc (close_calls st)\<rparr>"
  from Suc.prems have c: "close_via tc st = (Inr (), ?st1)" by (rule close_via_not_working)
  from Suc.prems have "\<not> session_in_working_order ?st1"
    by (simp add: working_order_close_calls)
  from Suc.IH [OF this] c show ?case by simp
qed

lemma close_via_ok_ends:
  "valid_ref st \<Longrightarrow> fst (close_via tc st) = Inr () \<Longrightarrow>
   \<not> session_in_working_order (snd (close_via tc st))"
  by (auto simp: close_via_def session_in_working_order_def client_session_close_def
      valid_ref_def Let_def split: option.splits if_splits prod.splits)

lemma close_via_valid_ref: "valid_ref st \<Longrightarrow> valid_ref (snd (close_via tc st))"
  by (auto simp: close_via_def session_in_working_order_def client_session_close_def
      valid_ref_def Let_def split: option.splits if_splits prod.splits)

lemma close_times_reliable:
  assumes "\<forall>s. tc s = None"
  shows "fst (close_times tc n st) = replicate n (Inr ())"
proof (induction n arbitrary: st)
  case 0
  show ?case by simp
next
  case (Suc n)
  have "fst (close_via tc st) = Inr ()"
    using assms by (simp add: close_via_def Let_def session_in_working_order_def split: option.splits)
  with Suc [of "snd (close_via tc st)"] show ?case
    by (simp add: close_times_Suc del: close_times.simps)
qed

lemma close_times_reliable_ends:
  assumes "\<forall>s. tc s = None" "valid_ref st" "0 < n"
  shows "\<not> session_in_working_order (snd (close_times tc n st))"
proof -
  from assms(3) obtain m where n: "n = Suc m" by (cases n) auto
  have ok: "fst (close_via tc st) = Inr ()"
    using assms(1) by (simp add: close_via_def Let_def session_in_working_order_def split: option.splits)
  with assms(2) have w: "\<not> session_in_working_order (snd (close_via tc st))"
    by (rule close_via_ok_ends)
  from close_times_idle [OF w, of tc m] w show ?thesis
    by (simp add: n close_times_Suc working_order_close_calls del: close_times.simps)
qed

text \<open>
  C2, as the specification states it, fails twice. It lets the number of calls be zero and
  promises a holder that is closed or unallocated afterwards: no call at all leaves an
  active holder active. And it promises that no call raises from any state: on an open
  session \<^verbatim>\<open>close\<close> awaits the transport's \<^verbatim>\<open>close()\<close>, and what that raises,
  \<^verbatim>\<open>close\<close> raises.
\<close>

theorem close_claim_counterexample:
  "valid_ref ex_active
   \<and> session_in_working_order (snd (close_times close_succeeds 0 ex_active))
   \<and> fst (close_via close_fails ex_active) = Inl (Raised ''CloseError'')"
  by (simp add: ex_defs holder_defs close_via_def close_fails_def Let_def)

text \<open>
  C2, amended. From a holder without a session, or with a closed one, \<open>n\<close> calls of
  \<^verbatim>\<open>close\<close> in a row raise nothing and change nothing (the ghost counter apart),
  whatever the transport. \<^verbatim>\<open>close\<close> raises only on an open session and only what
  the transport's \<^verbatim>\<open>close()\<close> raises on it, and then it does raise it. A call that
  returns leaves the holder's session not in working order. With a transport whose
  \<^verbatim>\<open>close()\<close> never raises, \<open>n\<close> calls from any state raise nothing, and after at
  least one of them the session is not in working order. Zero calls leave the state as it
  is.
\<close>

theorem close_repeatedly:
  "(\<not> session_in_working_order st \<longrightarrow>
      close_times tc n st = (replicate n (Inr ()), st\<lparr>close_calls := close_calls st + n\<rparr>))
   \<and> (fst (close_via tc st) = Inl e \<longrightarrow>
        (\<exists>a c. session st = Some a \<and> \<not> closed (heap st ! a) \<and> tc (heap st ! a) = Some (e, c)))
   \<and> (session st = Some a \<and> \<not> closed (heap st ! a) \<and> tc (heap st ! a) = Some (e, c) \<longrightarrow>
        fst (close_via tc st) = Inl e)
   \<and> (valid_ref st \<and> fst (close_via tc st) = Inr () \<longrightarrow>
        \<not> session_in_working_order (snd (close_via tc st)))
   \<and> ((\<forall>s. tc s = None) \<longrightarrow>
        fst (close_times tc n st) = replicate n (Inr ())
        \<and> (valid_ref st \<and> 0 < n \<longrightarrow> \<not> session_in_working_order (snd (close_times tc n st))))
   \<and> close_times tc 0 st = ([], st)
   \<and> close_via (\<lambda>s. None) st = close st"
proof (intro conjI impI)
  assume "\<not> session_in_working_order st"
  then show "close_times tc n st = (replicate n (Inr ()), st\<lparr>close_calls := close_calls st + n\<rparr>)"
    by (rule close_times_idle)
next
  assume "fst (close_via tc st) = Inl e"
  then show "\<exists>a c. session st = Some a \<and> \<not> closed (heap st ! a) \<and> tc (heap st ! a) = Some (e, c)"
    by (rule close_via_raises)
next
  assume "session st = Some a \<and> \<not> closed (heap st ! a) \<and> tc (heap st ! a) = Some (e, c)"
  then show "fst (close_via tc st) = Inl e" by (simp add: close_via_open)
next
  assume "valid_ref st \<and> fst (close_via tc st) = Inr ()"
  then show "\<not> session_in_working_order (snd (close_via tc st))" by (simp add: close_via_ok_ends)
next
  assume r: "\<forall>s. tc s = None"
  then show "fst (close_times tc n st) = replicate n (Inr ())" by (rule close_times_reliable)
  assume "valid_ref st \<and> 0 < n"
  with r show "\<not> session_in_working_order (snd (close_times tc n st))"
    by (simp add: close_times_reliable_ends)
next
  show "close_times tc 0 st = ([], st)" by simp
  show "close_via (\<lambda>s. None) st = close st" by (rule close_via_succeeding)
qed

theorem close_repeatedly_witness:
  "\<not> session_in_working_order ex_unallocated
   \<and> close_times close_fails 2 ex_unallocated
       = (replicate 2 (Inr ()), ex_unallocated\<lparr>close_calls := close_calls ex_unallocated + 2\<rparr>)
   \<and> \<not> session_in_working_order ex_closed
   \<and> close_times close_fails 2 ex_closed
       = (replicate 2 (Inr ()), ex_closed\<lparr>close_calls := close_calls ex_closed + 2\<rparr>)
   \<and> session ex_active = Some 0 \<and> \<not> closed (heap ex_active ! 0)
   \<and> close_fails (heap ex_active ! 0) = Some (Raised ''CloseError'', False)
   \<and> fst (close_via close_fails ex_active) = Inl (Raised ''CloseError'')
   \<and> valid_ref ex_active \<and> fst (close_via close_succeeds ex_active) = Inr ()
   \<and> \<not> session_in_working_order (snd (close_via close_succeeds ex_active))
   \<and> (\<forall>s. close_succeeds s = None) \<and> (0::nat) < 3
   \<and> fst (close_times close_succeeds 3 ex_active) = replicate 3 (Inr ())
   \<and> \<not> session_in_working_order (snd (close_times close_succeeds 3 ex_active))
   \<and> close_times close_succeeds 0 ex_active = ([], ex_active)"
proof -
  let ?e = "Raised ''CloseError''"
  have h1: "\<not> session_in_working_order ex_unallocated"
    and h2: "\<not> session_in_working_order ex_closed"
    and h3: "session ex_active = Some 0" and h4: "\<not> closed (heap ex_active ! 0)"
    and h5: "close_fails (heap ex_active ! 0) = Some (?e, False)"
    and h6: "valid_ref ex_active"
    and h7: "fst (close_via close_succeeds ex_active) = Inr ()"
    and h8: "\<forall>s. close_succeeds s = None"
    and h9: "(0::nat) < 3"
    by (simp_all add: ex_defs holder_defs close_via_def close_fails_def close_succeeds_def Let_def)
  from close_repeatedly [of ex_unallocated close_fails 2] h1
  have a: "close_times close_fails 2 ex_unallocated
       = (replicate 2 (Inr ()), ex_unallocated\<lparr>close_calls := close_calls ex_unallocated + 2\<rparr>)"
    by blast
  from close_repeatedly [of ex_closed close_fails 2] h2
  have b: "close_times close_fails 2 ex_closed
       = (replicate 2 (Inr ()), ex_closed\<lparr>close_calls := close_calls ex_closed + 2\<rparr>)"
    by blast
  from close_repeatedly [of ex_active close_fails 1 ?e 0 False] h3 h4 h5
  have c: "fst (close_via close_fails ex_active) = Inl ?e" by blast
  from close_repeatedly [of ex_active close_succeeds 3] h6 h7
  have d: "\<not> session_in_working_order (snd (close_via close_succeeds ex_active))" by blast
  from close_repeatedly [of ex_active close_succeeds 3] h6 h8 h9
  have f: "fst (close_times close_succeeds 3 ex_active) = replicate 3 (Inr ())"
    and g: "\<not> session_in_working_order (snd (close_times close_succeeds 3 ex_active))"
    by blast+
  from close_repeatedly [of ex_active close_succeeds 3]
  have i: "close_times close_succeeds 0 ex_active = ([], ex_active)" by blast
  show ?thesis
    by (intro conjI) (fact h1 h2 h3 h4 h5 h6 h7 h8 h9 a b c d f g i)+
qed


subsection \<open>The scope\<close>

lemma get_session_allocates:
  "\<not> session_in_working_order st \<Longrightarrow> ctor (session_kwargs st) = None \<Longrightarrow>
   get_session ctor st =
     (Inr (Some (length (heap st))),
      st\<lparr>heap := heap st @ [\<lparr>closed = False, init_kwargs = session_kwargs st\<rparr>],
         session := Some (length (heap st))\<rparr>)"
  by (simp add: get_session_def instantiate_new_session_def Let_def)

lemma async_with_entered:
  assumes "aenter ctor st = (Inr s, st1)"
  shows "async_with ctor st block = (fst (block s st1), snd (close (snd (block s st1))))"
proof -
  obtain r st2 where b: "block s st1 = (r, st2)" by (cases "block s st1")
  obtain st3 where c: "close st2 = (Inr (), st3)"
    using close_never_raises [of st2] by (cases "close st2") simp
  from assms b c show ?thesis by (simp add: async_with_def aexit_def)
qed

lemma async_with_not_entered:
  "aenter ctor st = (Inl e, st1) \<Longrightarrow> async_with ctor st block = (Inl e, st1)"
  by (simp add: async_with_def)

text \<open>
  C3. \<^verbatim>\<open>__aenter__\<close> is \<^verbatim>\<open>get_session\<close>: same result, same state, and the
  block receives the session it returned. \<^verbatim>\<open>__aexit__\<close> is \<^verbatim>\<open>close\<close>,
  whatever exception it is told about. When the block ends in the state \<open>st2\<close> with the
  result \<open>r\<close>, an exception included, the scope ends with the same \<open>r\<close> in the state that
  one \<^verbatim>\<open>close\<close> makes of \<open>st2\<close>: the counter of \<^verbatim>\<open>close\<close> calls is one more
  than the block left it, and the holder's session is not in working order.
\<close>

theorem scope_closes_once:
  "aenter ctor st = get_session ctor st
   \<and> aexit exc st2 = close st2
   \<and> (get_session ctor st = (Inr s, st1) \<and> block s st1 = (r, st2) \<longrightarrow>
        async_with ctor st block = (r, snd (close st2))
        \<and> close_calls (snd (async_with ctor st block)) = Suc (close_calls st2)
        \<and> (valid_ref st2 \<longrightarrow> \<not> session_in_working_order (snd (async_with ctor st block))))"
proof (intro conjI impI)
  show "aenter ctor st = get_session ctor st" by (rule aenter_eq)
  show "aexit exc st2 = close st2" by (simp add: aexit_def)
next
  assume h: "get_session ctor st = (Inr s, st1) \<and> block s st1 = (r, st2)"
  then have "aenter ctor st = (Inr s, st1)" by (simp add: aenter_eq)
  from async_with_entered [OF this, of block] h
  show a: "async_with ctor st block = (r, snd (close st2))" by simp
  show "close_calls (snd (async_with ctor st block)) = Suc (close_calls st2)"
    by (simp add: a close_calls_close)
  assume "valid_ref st2"
  then show "\<not> session_in_working_order (snd (async_with ctor st block))"
    by (simp add: a close_ends_not_working)
qed

theorem scope_closes_once_witness:
  "get_session strict_ctor ex_unallocated = (Inr (Some 0), ex_active)
   \<and> ex_failing_block (Some 0) ex_active
       = (Inl (Raised ''boom''), update_session_kwargs [''timeout'' \<mapsto> 5] ex_active)
   \<and> valid_ref (update_session_kwargs [''timeout'' \<mapsto> 5] ex_active)
   \<and> fst (async_with strict_ctor ex_unallocated ex_failing_block) = Inl (Raised ''boom'')
   \<and> close_calls (snd (async_with strict_ctor ex_unallocated ex_failing_block)) = 1
   \<and> \<not> session_in_working_order (snd (async_with strict_ctor ex_unallocated ex_failing_block))"
proof -
  let ?st2 = "update_session_kwargs [''timeout'' \<mapsto> 5] ex_active"
  have h1: "get_session strict_ctor ex_unallocated = (Inr (Some 0), ex_active)"
    by (simp add: ex_defs holder_defs)
  have h2: "ex_failing_block (Some 0) ex_active = (Inl (Raised ''boom''), ?st2)"
    by (simp add: ex_failing_block_def)
  have h3: "valid_ref ?st2" by (simp add: ex_defs holder_defs)
  have c: "close_calls ?st2 = 0" by (simp add: ex_defs holder_defs)
  from scope_closes_once [of strict_ctor ex_unallocated None ?st2 "Some 0" ex_active
      ex_failing_block "Inl (Raised ''boom'')"] h1 h2 h3
  have r: "async_with strict_ctor ex_unallocated ex_failing_block
             = (Inl (Raised ''boom''), snd (close ?st2))"
    and n: "close_calls (snd (async_with strict_ctor ex_unallocated ex_failing_block))
             = Suc (close_calls ?st2)"
    and w: "\<not> session_in_working_order (snd (async_with strict_ctor ex_unallocated ex_failing_block))"
    by blast+
  from r have "fst (async_with strict_ctor ex_unallocated ex_failing_block) = Inl (Raised ''boom'')"
    by simp
  with h1 h2 h3 n w c show ?thesis by simp
qed

subsection \<open>Reallocation\<close>

text \<open>
  C4. The holder refers to a session that is closed, whoever closed it, and the
  constructor accepts the current configuration. Then \<^verbatim>\<open>get_session\<close> returns a
  new address, one past the store, hence different from the closed session's; the object
  there is open and was constructed from the holder's current configuration; the holder
  refers to it when the call returns; and the closed session is still in the store, as it
  was.
\<close>

theorem get_session_after_close_reallocates:
  "valid_ref st \<and> session st = Some a \<and> closed (heap st ! a) \<and> ctor (session_kwargs st) = None \<longrightarrow>
     fst (get_session ctor st) = Inr (Some (length (heap st)))
     \<and> length (heap st) \<noteq> a
     \<and> session (snd (get_session ctor st)) = Some (length (heap st))
     \<and> heap (snd (get_session ctor st))
         = heap st @ [\<lparr>closed = False, init_kwargs = session_kwargs st\<rparr>]
     \<and> heap (snd (get_session ctor st)) ! length (heap st)
         = \<lparr>closed = False, init_kwargs = session_kwargs st\<rparr>
     \<and> heap (snd (get_session ctor st)) ! a = heap st ! a
     \<and> session_in_working_order (snd (get_session ctor st))"
proof (intro impI, elim conjE)
  assume h: "valid_ref st" "session st = Some a" "closed (heap st ! a)"
    "ctor (session_kwargs st) = None"
  from h have "\<not> session_in_working_order st" by (simp add: session_in_working_order_def)
  from get_session_allocates [of st ctor, OF this h(4)] h(1,2)
  show "fst (get_session ctor st) = Inr (Some (length (heap st)))
     \<and> length (heap st) \<noteq> a
     \<and> session (snd (get_session ctor st)) = Some (length (heap st))
     \<and> heap (snd (get_session ctor st))
         = heap st @ [\<lparr>closed = False, init_kwargs = session_kwargs st\<rparr>]
     \<and> heap (snd (get_session ctor st)) ! length (heap st)
         = \<lparr>closed = False, init_kwargs = session_kwargs st\<rparr>
     \<and> heap (snd (get_session ctor st)) ! a = heap st ! a
     \<and> session_in_working_order (snd (get_session ctor st))"
    by (simp add: valid_ref_def session_in_working_order_def nth_append)
qed

theorem get_session_after_close_reallocates_witness:
  "snd (close ex_active) = ex_closed
   \<and> valid_ref ex_closed \<and> session ex_closed = Some 0 \<and> closed (heap ex_closed ! 0)
   \<and> strict_ctor (session_kwargs ex_closed) = None
   \<and> fst (get_session strict_ctor ex_closed) = Inr (Some 1)
   \<and> session (snd (get_session strict_ctor ex_closed)) = Some 1
   \<and> heap (snd (get_session strict_ctor ex_closed)) ! 1
        = \<lparr>closed = False, init_kwargs = Map.empty\<rparr>
   \<and> closed (heap (snd (get_session strict_ctor ex_closed)) ! 0)
   \<and> session_in_working_order (snd (get_session strict_ctor ex_closed))
   \<and> heap (client_session_close 0 ex_active) = heap ex_closed"
proof -
  have h: "valid_ref ex_closed \<and> session ex_closed = Some 0 \<and> closed (heap ex_closed ! 0)
     \<and> strict_ctor (session_kwargs ex_closed) = None"
    by (simp add: ex_defs holder_defs)
  have c: "snd (close ex_active) = ex_closed" "heap (client_session_close 0 ex_active) = heap ex_closed"
    "length (heap ex_closed) = 1" "session_kwargs ex_closed = Map.empty"
    by (simp_all add: ex_defs holder_defs)
  from get_session_after_close_reallocates [of ex_closed 0 strict_ctor] h
  have r: "fst (get_session strict_ctor ex_closed) = Inr (Some (length (heap ex_closed)))"
    "session (snd (get_session strict_ctor ex_closed)) = Some (length (heap ex_closed))"
    "heap (snd (get_session strict_ctor ex_closed)) ! length (heap ex_closed)
       = \<lparr>closed = False, init_kwargs = session_kwargs ex_closed\<rparr>"
    "heap (snd (get_session strict_ctor ex_closed)) ! 0 = heap ex_closed ! 0"
    "session_in_working_order (snd (get_session strict_ctor ex_closed))"
    by blast+
  from h c r show ?thesis by simp
qed

subsection \<open>Entry that fails\<close>

text \<open>
  C5. When \<^verbatim>\<open>get_session\<close> raises, it leaves the state as it was, so does
  \<^verbatim>\<open>__aenter__\<close>, and the scope raises the same exception without running the block
  (whatever the block is) and without any change of state: entry has no partial effect to
  undo. When \<^verbatim>\<open>__aenter__\<close> has returned, the scope ends with a \<^verbatim>\<open>close\<close> on
  the state the block left, whatever the block did.
\<close>

theorem failed_entry_aborts_scope:
  "(get_session ctor st = (Inl e, st') \<longrightarrow>
      st' = st \<and> aenter ctor st = (Inl e, st) \<and> async_with ctor st block = (Inl e, st))
   \<and> (aenter ctor st = (Inr s, st1) \<longrightarrow>
      snd (async_with ctor st block) = snd (close (snd (block s st1)))
      \<and> close_calls (snd (async_with ctor st block)) = Suc (close_calls (snd (block s st1))))"
proof (intro conjI impI)
  assume g: "get_session ctor st = (Inl e, st')"
  then show s: "st' = st" by (simp add: get_session_raises)
  from g s show a: "aenter ctor st = (Inl e, st)" by (simp add: aenter_eq)
  from a show "async_with ctor st block = (Inl e, st)" by (rule async_with_not_entered)
next
  assume a: "aenter ctor st = (Inr s, st1)"
  from async_with_entered [OF a, of block]
  show b: "snd (async_with ctor st block) = snd (close (snd (block s st1)))" by simp
  show "close_calls (snd (async_with ctor st block)) = Suc (close_calls (snd (block s st1)))"
    by (simp add: b close_calls_close)
qed

theorem failed_entry_aborts_scope_witness:
  "get_session strict_ctor ex_misconfigured = (Inl TypeError, ex_misconfigured)
   \<and> aenter strict_ctor ex_misconfigured = (Inl TypeError, ex_misconfigured)
   \<and> async_with strict_ctor ex_misconfigured ex_failing_block = (Inl TypeError, ex_misconfigured)
   \<and> close_calls ex_misconfigured = 0
   \<and> aenter strict_ctor ex_unallocated = (Inr (Some 0), ex_active)
   \<and> close_calls (snd (async_with strict_ctor ex_unallocated ex_failing_block)) = 1"
proof -
  have h1: "get_session strict_ctor ex_misconfigured = (Inl TypeError, ex_misconfigured)"
    by (simp add: ex_misconfigured_def ex_defs holder_defs)
  have h2: "aenter strict_ctor ex_unallocated = (Inr (Some 0), ex_active)"
    by (simp add: ex_defs holder_defs)
  have c: "close_calls ex_misconfigured = 0"
    "close_calls (snd (ex_failing_block (Some 0) ex_active)) = 0"
    by (simp_all add: ex_misconfigured_def ex_failing_block_def ex_defs holder_defs)
  from failed_entry_aborts_scope [of strict_ctor ex_misconfigured TypeError ex_misconfigured
      ex_failing_block] h1
  have a: "aenter strict_ctor ex_misconfigured = (Inl TypeError, ex_misconfigured)"
    "async_with strict_ctor ex_misconfigured ex_failing_block = (Inl TypeError, ex_misconfigured)"
    by simp_all
  from failed_entry_aborts_scope [of strict_ctor ex_unallocated _ _ ex_failing_block "Some 0" ex_active] h2
  have "close_calls (snd (async_with strict_ctor ex_unallocated ex_failing_block))
          = Suc (close_calls (snd (ex_failing_block (Some 0) ex_active)))"
    by blast
  with c have b: "close_calls (snd (async_with strict_ctor ex_unallocated ex_failing_block)) = 1"
    by simp
  from h1 h2 c a b show ?thesis by simp
qed


subsection \<open>Who changes the holder's reference\<close>

lemma call_session:
  "x \<noteq> GetSession \<Longrightarrow> session (snd (call ctor x st)) = session st"
  by (cases x)
    (simp_all add: call_Close close_session update_session_kwargs_def parse_response_def
      client_session_close_def del: call.simps(2))

lemma run_session:
  "GetSession \<notin> set ops \<Longrightarrow> session (snd (run ctor ops st)) = session st"
proof (induction ops arbitrary: st)
  case Nil
  show ?case by simp
next
  case (Cons x xs)
  then have "x \<noteq> GetSession" "GetSession \<notin> set xs" by auto
  with Cons.IH [of "snd (call ctor x st)"] show ?case
    by (simp add: run_Cons call_session del: run.simps call.simps)
qed

lemma get_session_changes_session:
  "session (snd (get_session ctor st)) \<noteq> session st \<Longrightarrow>
   \<not> session_in_working_order st \<and> ctor (session_kwargs st) = None
   \<and> session (snd (get_session ctor st)) = Some (length (heap st))"
  by (auto simp: get_session_def instantiate_new_session_def Let_def split: if_splits option.splits)

subsection \<open>Changing the configuration\<close>

lemma init_kwargs_closed:
  "a < length xs \<Longrightarrow> init_kwargs (xs[b := (xs ! b)\<lparr>closed := True\<rparr>] ! a) = init_kwargs (xs ! a)"
  by (cases "a = b") simp_all

text \<open>
  C6. \<^verbatim>\<open>update_session_kwargs\<close> leaves in the holder the old configuration
  overridden by the new keywords: a key of the update has the update's value, any other key
  keeps its own. The holder's reference and the store, hence every session object, are as
  before; a holder in working order goes on handing out the same session. When the holder
  is then closed and asked for a session, and the constructor accepts the merged
  configuration, the new session is constructed from the merged configuration, and the
  sessions that existed keep the arguments they were constructed from.
\<close>

theorem update_session_kwargs_isolated:
  "session_kwargs (update_session_kwargs kw st) = session_kwargs st ++ kw
   \<and> session_kwargs (update_session_kwargs kw st) k
        = (case kw k of Some v \<Rightarrow> Some v | None \<Rightarrow> session_kwargs st k)
   \<and> session (update_session_kwargs kw st) = session st
   \<and> heap (update_session_kwargs kw st) = heap st
   \<and> (session_in_working_order st \<longrightarrow>
        get_session ctor (update_session_kwargs kw st)
          = (Inr (session st), update_session_kwargs kw st))
   \<and> (valid_ref st \<and> ctor (session_kwargs st ++ kw) = None \<longrightarrow>
        fst (run ctor [Close, GetSession] (update_session_kwargs kw st))
          = [Inr RNone, Inr (RSession (Some (length (heap st))))]
        \<and> init_kwargs (heap (snd (run ctor [Close, GetSession] (update_session_kwargs kw st)))
                        ! length (heap st))
            = session_kwargs st ++ kw
        \<and> (\<forall>a < length (heap st).
              init_kwargs (heap (snd (run ctor [Close, GetSession] (update_session_kwargs kw st))) ! a)
                = init_kwargs (heap st ! a)))"
proof (intro conjI impI)
  let ?u = "update_session_kwargs kw st"
  show "session_kwargs ?u = session_kwargs st ++ kw"
    by (simp add: update_session_kwargs_def)
  show "session_kwargs ?u k = (case kw k of Some v \<Rightarrow> Some v | None \<Rightarrow> session_kwargs st k)"
    by (simp add: update_session_kwargs_def map_add_def split: option.splits)
  show "session ?u = session st" by (simp add: update_session_kwargs_def)
  show "heap ?u = heap st" by (simp add: update_session_kwargs_def)
next
  let ?u = "update_session_kwargs kw st"
  assume "session_in_working_order st"
  then have "session_in_working_order ?u"
    by (simp add: session_in_working_order_def update_session_kwargs_def split: option.splits)
  then have "get_session ctor ?u = (Inr (session ?u), ?u)" by (rule get_session_working)
  then show "get_session ctor ?u = (Inr (session st), ?u)"
    by (simp add: update_session_kwargs_def)
next
  let ?u = "update_session_kwargs kw st"
  let ?c = "snd (close ?u)"
  assume h: "valid_ref st \<and> ctor (session_kwargs st ++ kw) = None"
  then have v: "valid_ref ?u"
    by (simp add: valid_ref_def update_session_kwargs_def split: option.splits)
  then have nw: "\<not> session_in_working_order ?c" by (rule close_ends_not_working)
  have kc: "session_kwargs ?c = session_kwargs st ++ kw"
    by (simp add: close_def client_session_close_def update_session_kwargs_def Let_def
        split: option.splits)
  have lc: "length (heap ?c) = length (heap st)"
    by (simp add: close_def client_session_close_def update_session_kwargs_def Let_def
        split: option.splits)
  have ic: "\<And>a. a < length (heap st) \<Longrightarrow> init_kwargs (heap ?c ! a) = init_kwargs (heap st ! a)"
    by (simp add: close_def client_session_close_def update_session_kwargs_def Let_def
        init_kwargs_closed split: option.splits)
  from h kc have "ctor (session_kwargs ?c) = None" by simp
  from get_session_allocates [of ?c ctor, OF nw this] kc lc
  have g: "get_session ctor ?c =
     (Inr (Some (length (heap st))),
      ?c\<lparr>heap := heap ?c @ [\<lparr>closed = False, init_kwargs = session_kwargs st ++ kw\<rparr>],
         session := Some (length (heap st))\<rparr>)"
    by simp
  have r: "run ctor [Close, GetSession] ?u =
     ([Inr RNone, Inr (RSession (Some (length (heap st))))],
      ?c\<lparr>heap := heap ?c @ [\<lparr>closed = False, init_kwargs = session_kwargs st ++ kw\<rparr>],
         session := Some (length (heap st))\<rparr>)"
    by (simp add: run_Cons call_Close g del: run.simps(2) call.simps(2))
  show "fst (run ctor [Close, GetSession] ?u) = [Inr RNone, Inr (RSession (Some (length (heap st))))]"
    by (simp only: r fst_conv)
  show "init_kwargs (heap (snd (run ctor [Close, GetSession] ?u)) ! length (heap st))
            = session_kwargs st ++ kw"
    using lc by (simp add: r nth_append del: run.simps)
  show "\<forall>a < length (heap st).
      init_kwargs (heap (snd (run ctor [Close, GetSession] ?u)) ! a) = init_kwargs (heap st ! a)"
    using lc ic by (simp add: r nth_append del: run.simps)
qed

theorem update_session_kwargs_isolated_witness:
  "session_in_working_order ex_active \<and> valid_ref ex_active
   \<and> strict_ctor (session_kwargs ex_active ++ [''timeout'' \<mapsto> 5]) = None
   \<and> session_kwargs (update_session_kwargs [''timeout'' \<mapsto> 5] ex_active) ''timeout'' = Some 5
   \<and> session_kwargs (update_session_kwargs [''timeout'' \<mapsto> 7]
         (update_session_kwargs [''timeout'' \<mapsto> 5] ex_active)) ''timeout'' = Some 7
   \<and> get_session strict_ctor (update_session_kwargs [''timeout'' \<mapsto> 5] ex_active)
        = (Inr (Some 0), update_session_kwargs [''timeout'' \<mapsto> 5] ex_active)
   \<and> heap (update_session_kwargs [''timeout'' \<mapsto> 5] ex_active) = heap ex_active
   \<and> fst (run strict_ctor [Close, GetSession] (update_session_kwargs [''timeout'' \<mapsto> 5] ex_active))
        = [Inr RNone, Inr (RSession (Some 1))]
   \<and> init_kwargs (heap (snd (run strict_ctor [Close, GetSession]
         (update_session_kwargs [''timeout'' \<mapsto> 5] ex_active))) ! 1) ''timeout'' = Some 5
   \<and> init_kwargs (heap (snd (run strict_ctor [Close, GetSession]
         (update_session_kwargs [''timeout'' \<mapsto> 5] ex_active))) ! 0) ''timeout'' = None"
proof -
  let ?kw = "[''timeout'' \<mapsto> 5::nat]"
  let ?u = "update_session_kwargs ?kw ex_active"
  let ?r = "run strict_ctor [Close, GetSession] ?u"
  have h1: "session_in_working_order ex_active" and h2: "valid_ref ex_active"
    and h3: "strict_ctor (session_kwargs ex_active ++ ?kw) = None"
    by (simp_all add: ex_defs holder_defs)
  have e: "session ex_active = Some 0" "length (heap ex_active) = 1"
    "init_kwargs (heap ex_active ! 0) ''timeout'' = None"
    by (simp_all add: ex_defs)
  note t = update_session_kwargs_isolated [of ?kw ex_active "''timeout''" strict_ctor]
  from t have a: "session_kwargs ?u ''timeout'' = Some 5" by simp
  from update_session_kwargs_isolated [of "[''timeout'' \<mapsto> 7]" ?u "''timeout''" strict_ctor]
  have b: "session_kwargs (update_session_kwargs [''timeout'' \<mapsto> 7] ?u) ''timeout'' = Some 7"
    by simp
  from t h1 have c: "get_session strict_ctor ?u = (Inr (session ex_active), ?u)" by blast
  from t have d: "heap ?u = heap ex_active" by blast
  from t h2 h3 have f: "fst ?r = [Inr RNone, Inr (RSession (Some (length (heap ex_active))))]"
    and g: "init_kwargs (heap (snd ?r) ! length (heap ex_active)) = session_kwargs ex_active ++ ?kw"
    and i: "\<forall>a < length (heap ex_active).
              init_kwargs (heap (snd ?r) ! a) = init_kwargs (heap ex_active ! a)"
    by blast+
  from g have g': "init_kwargs (heap (snd ?r) ! 1) ''timeout'' = Some 5"
    by (simp only: e) simp
  from i e have i': "init_kwargs (heap (snd ?r) ! 0) ''timeout'' = None" by simp
  from c e have c': "get_session strict_ctor ?u = (Inr (Some 0), ?u)" by simp
  from f e have f': "fst ?r = [Inr RNone, Inr (RSession (Some 1))]" by simp
  show ?thesis
    by (intro conjI) (fact h1 h2 h3 a b c' d f' g' i')+
qed

subsection \<open>Normalizing a response\<close>

text \<open>
  C7. \<^verbatim>\<open>parse_response\<close> returns a \<^verbatim>\<open>Response\<close> whose status code, headers and
  content type are those of the raw response and whose body is the whole payload, every
  chunk of it in order; the holder is unchanged. For the raw response with status 200,
  payload \<^verbatim>\<open>b"ok"\<close> (here in two chunks), header \<^verbatim>\<open>X-Test: 1\<close> and content type
  \<^verbatim>\<open>text/plain\<close> the result has exactly these four values.
\<close>

theorem parse_response_fidelity:
  "(\<exists>resp. fst (parse_response st r) = Inr resp
       \<and> status_code resp = status r \<and> body resp = concat (stream r)
       \<and> headers resp = raw_headers r \<and> content_type resp = raw_content_type r)
   \<and> snd (parse_response st r) = st
   \<and> fst (parse_response st ex_raw)
       = Inr \<lparr>status_code = 200, body = ''ok'', headers = [(''X-Test'', ''1'')],
              content_type = ''text/plain''\<rparr>"
  by (simp add: parse_response_def read_def ex_raw_def)

subsection \<open>The liveness predicate\<close>

text \<open>
  C8. \<^verbatim>\<open>_session_in_working_order\<close> holds exactly when the holder refers to a session
  and that session's closed-flag is false. When it holds, \<^verbatim>\<open>get_session\<close> returns the
  stored reference and changes nothing, and \<^verbatim>\<open>close\<close> closes the stored session. When
  it does not hold, \<^verbatim>\<open>get_session\<close> is \<^verbatim>\<open>_instantiate_new_session\<close> and
  \<^verbatim>\<open>close\<close> does nothing but return.
\<close>

theorem working_order_decides:
  "(session_in_working_order st \<longleftrightarrow> (\<exists>a. session st = Some a \<and> closed (heap st ! a) = False))
   \<and> (session_in_working_order st \<longrightarrow>
        get_session ctor st = (Inr (session st), st)
        \<and> (\<exists>a. session st = Some a \<and>
               close st = (Inr (), client_session_close a (st\<lparr>close_calls := Suc (close_calls st)\<rparr>))))
   \<and> (\<not> session_in_working_order st \<longrightarrow>
        get_session ctor st = instantiate_new_session ctor st
        \<and> close st = (Inr (), st\<lparr>close_calls := Suc (close_calls st)\<rparr>))"
proof (intro conjI impI)
  show "session_in_working_order st \<longleftrightarrow> (\<exists>a. session st = Some a \<and> closed (heap st ! a) = False)"
    by (simp add: session_in_working_order_def split: option.splits)
next
  assume w: "session_in_working_order st"
  then show "get_session ctor st = (Inr (session st), st)" by (rule get_session_working)
  from w obtain a where a: "session st = Some a"
    by (auto simp: session_in_working_order_def split: option.splits)
  from close_working [OF w a] a
  show "\<exists>a. session st = Some a \<and>
     close st = (Inr (), client_session_close a (st\<lparr>close_calls := Suc (close_calls st)\<rparr>))"
    by blast
next
  assume n: "\<not> session_in_working_order st"
  then show "get_session ctor st = instantiate_new_session ctor st" by (simp add: get_session_def)
  from n show "close st = (Inr (), st\<lparr>close_calls := Suc (close_calls st)\<rparr>)"
    by (rule close_not_working)
qed

theorem working_order_decides_witness:
  "session_in_working_order ex_active
   \<and> get_session strict_ctor ex_active = (Inr (Some 0), ex_active)
   \<and> fst (close ex_active) = Inr () \<and> closed (heap (snd (close ex_active)) ! 0)
   \<and> \<not> session_in_working_order ex_unallocated
   \<and> get_session strict_ctor ex_unallocated = instantiate_new_session strict_ctor ex_unallocated
   \<and> close ex_unallocated = (Inr (), ex_unallocated\<lparr>close_calls := 1\<rparr>)
   \<and> \<not> session_in_working_order ex_closed
   \<and> close ex_closed = (Inr (), ex_closed\<lparr>close_calls := 2\<rparr>)"
proof -
  have h1: "session_in_working_order ex_active"
    and h2: "\<not> session_in_working_order ex_unallocated"
    and h3: "\<not> session_in_working_order ex_closed"
    by (simp_all add: ex_defs holder_defs)
  have e: "session ex_active = Some 0" "close_calls ex_unallocated = 0" "close_calls ex_closed = 1"
    by (simp_all add: ex_defs)
  from working_order_decides [of ex_active strict_ctor] h1
  have a: "get_session strict_ctor ex_active = (Inr (session ex_active), ex_active)"
    and b: "\<exists>a. session ex_active = Some a \<and>
       close ex_active = (Inr (), client_session_close a (ex_active\<lparr>close_calls := Suc (close_calls ex_active)\<rparr>))"
    by blast+
  from b e have b': "close ex_active
      = (Inr (), client_session_close 0 (ex_active\<lparr>close_calls := Suc (close_calls ex_active)\<rparr>))"
    by simp
  have b1: "fst (close ex_active) = Inr ()" by (simp only: b' fst_conv)
  have b2: "closed (heap (snd (close ex_active)) ! 0)"
    by (simp only: b' snd_conv) (simp add: client_session_close_def ex_active_def)
  from working_order_decides [of ex_unallocated strict_ctor] h2
  have c: "get_session strict_ctor ex_unallocated = instantiate_new_session strict_ctor ex_unallocated"
    and d: "close ex_unallocated = (Inr (), ex_unallocated\<lparr>close_calls := Suc (close_calls ex_unallocated)\<rparr>)"
    by blast+
  from working_order_decides [of ex_closed strict_ctor] h3
  have f: "close ex_closed = (Inr (), ex_closed\<lparr>close_calls := Suc (close_calls ex_closed)\<rparr>)"
    by blast
  from a e have a': "get_session strict_ctor ex_active = (Inr (Some 0), ex_active)" by simp
  from d e have d': "close ex_unallocated = (Inr (), ex_unallocated\<lparr>close_calls := 1\<rparr>)" by simp
  from f e have f': "close ex_closed = (Inr (), ex_closed\<lparr>close_calls := 2\<rparr>)" by simp
  show ?thesis
    by (intro conjI) (fact h1 h2 h3 a' b1 b2 c d' f')+
qed

subsection \<open>A holder that never allocated\<close>

text \<open>
  C9. After \<^verbatim>\<open>__init__\<close> and any calls other than \<^verbatim>\<open>get_session\<close> the holder
  has no session; \<^verbatim>\<open>close\<close> and \<^verbatim>\<open>__aexit__\<close> then return without an error
  and change nothing (the ghost counter apart). \<^verbatim>\<open>parse_response\<close> always returns a
  response, the same for every state of the holder, and leaves the holder as it is.
\<close>

theorem unallocated_holder_is_harmless:
  "(GetSession \<notin> set ops \<and> st = snd (run ctor ops (init kw h)) \<longrightarrow>
      session st = None
      \<and> close st = (Inr (), st\<lparr>close_calls := Suc (close_calls st)\<rparr>)
      \<and> aexit exc st = (Inr (), st\<lparr>close_calls := Suc (close_calls st)\<rparr>))
   \<and> fst (parse_response st r) = fst (parse_response st' r)
   \<and> snd (parse_response st r) = st
   \<and> (\<exists>v. fst (parse_response st r) = Inr v)"
proof (intro conjI impI)
  assume h: "GetSession \<notin> set ops \<and> st = snd (run ctor ops (init kw h))"
  then have "session st = session (init kw h)" by (simp add: run_session)
  then show s: "session st = None" by (simp add: init_def)
  then have "\<not> session_in_working_order st" by (simp add: session_in_working_order_def)
  then show c: "close st = (Inr (), st\<lparr>close_calls := Suc (close_calls st)\<rparr>)"
    by (rule close_not_working)
  then show "aexit exc st = (Inr (), st\<lparr>close_calls := Suc (close_calls st)\<rparr>)"
    by (simp add: aexit_def)
qed (simp_all add: parse_response_def)

theorem unallocated_holder_is_harmless_witness:
  "GetSession \<notin> set ex_idle_calls
   \<and> session (snd (run strict_ctor ex_idle_calls (init Map.empty []))) = None
   \<and> fst (close (snd (run strict_ctor ex_idle_calls (init Map.empty [])))) = Inr ()
   \<and> fst (aexit None (snd (run strict_ctor ex_idle_calls (init Map.empty [])))) = Inr ()
   \<and> heap (snd (close (snd (run strict_ctor ex_idle_calls (init Map.empty []))))) = []
   \<and> fst (parse_response ex_unallocated ex_raw) = fst (parse_response ex_active ex_raw)"
proof -
  let ?st = "snd (run strict_ctor ex_idle_calls (init Map.empty []))"
  have h: "GetSession \<notin> set ex_idle_calls" by (simp add: ex_idle_calls_def)
  have hp: "heap ?st = []"
    by (simp add: ex_idle_calls_def ex_defs holder_defs Let_def)
  note t = unallocated_holder_is_harmless [of ex_idle_calls ?st strict_ctor Map.empty "[]" None]
  from t h have a: "session ?st = None"
    and b: "close ?st = (Inr (), ?st\<lparr>close_calls := Suc (close_calls ?st)\<rparr>)"
    and c: "aexit None ?st = (Inr (), ?st\<lparr>close_calls := Suc (close_calls ?st)\<rparr>)"
    by blast+
  have b1: "fst (close ?st) = Inr ()" by (simp only: b fst_conv)
  have c1: "fst (aexit None ?st) = Inr ()" by (simp only: c fst_conv)
  have b2: "heap (snd (close ?st)) = []" by (simp only: b snd_conv) (simp add: hp)
  from unallocated_holder_is_harmless [of ex_idle_calls ex_unallocated strict_ctor
      Map.empty "[]" None ex_raw ex_active]
  have d: "fst (parse_response ex_unallocated ex_raw) = fst (parse_response ex_active ex_raw)"
    by blast
  show ?thesis
    by (intro conjI) (fact h a b1 c1 b2 d)+
qed

subsection \<open>The reference after close\<close>

text \<open>
  C10. \<^verbatim>\<open>close\<close> leaves the holder's reference as it is: a holder that referred to
  a session still refers to it, the session now reports closed, and that flag alone makes
  the holder not in working order. Of all calls only \<^verbatim>\<open>get_session\<close> can change the
  reference, and only when the session is not in working order and the constructor
  succeeds: it then becomes the address of the new session. \<^verbatim>\<open>__aenter__\<close> leaves
  the reference that its \<^verbatim>\<open>get_session\<close> left.
\<close>

theorem close_keeps_reference:
  "session (snd (close st)) = session st
   \<and> (valid_ref st \<and> session st = Some a \<longrightarrow>
        session (snd (close st)) = Some a
        \<and> closed (heap (snd (close st)) ! a)
        \<and> \<not> session_in_working_order (snd (close st)))
   \<and> (session (snd (call ctor x st)) \<noteq> session st \<longrightarrow>
        x = GetSession \<and> \<not> session_in_working_order st \<and> ctor (session_kwargs st) = None
        \<and> session (snd (call ctor x st)) = Some (length (heap st)))
   \<and> session (snd (aenter ctor st)) = session (snd (get_session ctor st))"
proof (intro conjI impI)
  show "session (snd (close st)) = session st" by (rule close_session)
  show "session (snd (aenter ctor st)) = session (snd (get_session ctor st))"
    by (simp add: aenter_eq)
next
  assume h: "valid_ref st \<and> session st = Some a"
  then show s: "session (snd (close st)) = Some a" by (simp add: close_session)
  from h have "\<not> session_in_working_order (snd (close st))" by (simp add: close_ends_not_working)
  then show "\<not> session_in_working_order (snd (close st))" .
  with s show "closed (heap (snd (close st)) ! a)" by (simp add: session_in_working_order_def)
next
  assume d: "session (snd (call ctor x st)) \<noteq> session st"
  then show x: "x = GetSession" using call_session [of x ctor st] by blast
  have c: "snd (call ctor GetSession st) = snd (get_session ctor st)"
    by (simp split: prod.splits)
  with d x have "session (snd (get_session ctor st)) \<noteq> session st" by simp
  from get_session_changes_session [OF this] x c
  show "\<not> session_in_working_order st" "ctor (session_kwargs st) = None"
    "session (snd (call ctor x st)) = Some (length (heap st))"
    by (simp_all del: call.simps)
qed


theorem close_keeps_reference_witness:
  "valid_ref ex_active \<and> session ex_active = Some 0
   \<and> session (snd (close ex_active)) = Some 0
   \<and> closed (heap (snd (close ex_active)) ! 0)
   \<and> \<not> session_in_working_order (snd (close ex_active))
   \<and> session (snd (call strict_ctor GetSession ex_closed)) \<noteq> session ex_closed
   \<and> session (snd (call strict_ctor GetSession ex_closed)) = Some 1
   \<and> session (snd (call strict_ctor Close ex_closed)) = session ex_closed"
proof -
  have h1: "valid_ref ex_active" and h2: "session ex_active = Some 0"
    by (simp_all add: ex_defs holder_defs)
  have h3: "session (snd (call strict_ctor GetSession ex_closed)) \<noteq> session ex_closed"
    by (simp add: ex_defs holder_defs)
  have e: "length (heap ex_closed) = 1" by (simp add: ex_defs)
  from close_keeps_reference [of ex_active 0 strict_ctor Close] h1 h2
  have a: "session (snd (close ex_active)) = Some 0"
    and b: "closed (heap (snd (close ex_active)) ! 0)"
    and c: "\<not> session_in_working_order (snd (close ex_active))"
    by blast+
  from close_keeps_reference [of ex_closed 0 strict_ctor GetSession] h3
  have "session (snd (call strict_ctor GetSession ex_closed)) = Some (length (heap ex_closed))"
    by blast
  with e have d: "session (snd (call strict_ctor GetSession ex_closed)) = Some 1" by simp
  from close_keeps_reference [of ex_closed 0 strict_ctor Close]
  have f: "session (snd (call strict_ctor Close ex_closed)) = session ex_closed" by blast
  show ?thesis
    by (intro conjI) (fact h1 h2 h3 a b c d f)+
qed

subsection \<open>The holder's reference stays valid\<close>

text \<open>
  The condition \<open>valid_ref\<close> of the results above holds of every holder a program can
  reach: \<^verbatim>\<open>__init__\<close> establishes it and every call keeps it, a scope too when its
  block does.
\<close>

lemma init_valid_ref: "valid_ref (init kw h)"
  by (simp add: valid_ref_def init_def)

lemma get_session_valid_ref: "valid_ref st \<Longrightarrow> valid_ref (snd (get_session ctor st))"
  by (simp add: get_session_def instantiate_new_session_def valid_ref_def Let_def
      split: option.splits)

lemma call_valid_ref: "valid_ref st \<Longrightarrow> valid_ref (snd (call ctor x st))"
proof (cases x)
  case GetSession
  assume "valid_ref st"
  then have "valid_ref (snd (get_session ctor st))" by (rule get_session_valid_ref)
  with GetSession show ?thesis by (cases "get_session ctor st") simp
next
  case Close
  assume "valid_ref st"
  then have "valid_ref (snd (close st))" by (rule close_valid_ref)
  with Close show ?thesis by (simp add: call_Close del: call.simps)
next
  case (UpdateSessionKwargs kw)
  assume "valid_ref st"
  with UpdateSessionKwargs show ?thesis
    by (simp add: valid_ref_def update_session_kwargs_def split: option.splits)
next
  case (ParseResponse r)
  assume "valid_ref st"
  with ParseResponse show ?thesis by (simp add: parse_response_def)
next
  case (SessionClose a)
  assume "valid_ref st"
  with SessionClose show ?thesis
    by (simp add: valid_ref_def client_session_close_def split: option.splits)
qed

lemma run_valid_ref: "valid_ref st \<Longrightarrow> valid_ref (snd (run ctor ops st))"
proof (induction ops arbitrary: st)
  case Nil
  then show ?case by simp
next
  case (Cons x xs)
  from Cons.prems have "valid_ref (snd (call ctor x st))" by (rule call_valid_ref)
  then have "valid_ref (snd (run ctor xs (snd (call ctor x st))))" by (rule Cons.IH)
  then show ?case by (simp add: run_Cons del: run.simps call.simps)
qed

lemma reachable_valid_ref: "valid_ref (snd (run ctor ops (init kw h)))"
  by (rule run_valid_ref) (rule init_valid_ref)

lemma async_with_valid_ref:
  assumes "valid_ref st" and "\<And>s st1. valid_ref st1 \<Longrightarrow> valid_ref (snd (block s st1))"
  shows "valid_ref (snd (async_with ctor st block))"
proof (cases "aenter ctor st")
  case (Pair r st1)
  from assms(1) have v: "valid_ref (snd (aenter ctor st))"
    by (simp add: aenter_eq get_session_valid_ref)
  show ?thesis
  proof (cases r)
    case (Inl e)
    with Pair v show ?thesis by (simp add: async_with_not_entered)
  next
    case (Inr s)
    with Pair v have "valid_ref st1" by simp
    then have "valid_ref (snd (close (snd (block s st1))))"
      by (intro close_valid_ref assms(2))
    with Pair Inr show ?thesis by (simp add: async_with_entered)
  qed
qed

end
